theory Spec2Isabelle
  imports Complex_Main
begin

section \<open>The document as the script sees it\<close>

text \<open>
  The script (\<^verbatim>\<open>script.js\<close>) works on a rendered HTML document through five host
  operations: \<^verbatim>\<open>querySelector\<close>, \<^verbatim>\<open>querySelectorAll\<close>, \<^verbatim>\<open>getAttribute\<close>,
  \<^verbatim>\<open>classList.add\<close>/\<^verbatim>\<open>classList.remove\<close> and \<^verbatim>\<open>scrollIntoView\<close>.
  The document is the list of its elements in tree order; an element reference is the
  position of the element in that list. An element has its local name (lower case, as
  in an HTML document), its attributes other than \<^verbatim>\<open>class\<close>, and its class list
  (the token list behind \<^verbatim>\<open>classList\<close>).
\<close>

record element =
  tag :: string
  attrs :: "(string \<times> string) list"
  classes :: "string list"

type_synonym document = "element list"

text \<open>Exceptions of the host that the script can run into.\<close>

datatype error = TypeError | SyntaxError

text \<open>\<^verbatim>\<open>element.getAttribute(name)\<close>: the value, or \<^verbatim>\<open>null\<close>. The script holds
  references to elements of the document only, so \<open>i\<close> is a position in \<open>d\<close>.\<close>

definition getAttribute :: "document \<Rightarrow> nat \<Rightarrow> string \<Rightarrow> string option" where
  "getAttribute d i name = map_of (attrs (d ! i)) name"

text \<open>
  A value used where a string is expected (the argument of \<^verbatim>\<open>querySelector\<close>, a
  substitution of a template literal): \<^verbatim>\<open>null\<close> becomes the string \<^verbatim>\<open>"null"\<close>.
\<close>

definition toString :: "string option \<Rightarrow> string" where
  "toString v = (case v of None \<Rightarrow> ''null'' | Some s \<Rightarrow> s)"

text \<open>\<^verbatim>\<open>classList.add(token)\<close> and \<^verbatim>\<open>classList.remove(token)\<close> on one element.\<close>

definition addToken :: "string \<Rightarrow> string list \<Rightarrow> string list" where
  "addToken t ts = (if t \<in> set ts then ts else ts @ [t])"

definition classListAdd :: "document \<Rightarrow> nat \<Rightarrow> string \<Rightarrow> document" where
  "classListAdd d i t = d[i := (d ! i)\<lparr>classes := addToken t (classes (d ! i))\<rparr>]"

definition classListRemove :: "document \<Rightarrow> nat \<Rightarrow> string \<Rightarrow> document" where
  "classListRemove d i t = d[i := (d ! i)\<lparr>classes := removeAll t (classes (d ! i))\<rparr>]"

section \<open>Selectors\<close>

text \<open>
  The selector strings of the script are \<^verbatim>\<open>section\<close>, \<^verbatim>\<open>.nav-link\<close>, \<^verbatim>\<open>.logo\<close>,
  \<^verbatim>\<open>#home\<close>, the value of a link's \<^verbatim>\<open>href\<close>, and the template
  \<^verbatim>\<open>.nav-link[data-target="${sectionId}"]\<close>. The model interprets compound selectors made
  of a type name, \<^verbatim>\<open>#id\<close>, \<^verbatim>\<open>.class\<close> and \<^verbatim>\<open>[data-name="value"]\<close> parts, over ASCII
  names and over values without a quote, a backslash, a line break or a NUL (which would
  end the string, start an escape or be replaced). Only attributes named \<^verbatim>\<open>data-...\<close>
  are interpreted: their values are compared exactly, where the host compares the values
  of some older attributes without regard to case. Every other string is left to the
  host's selector engine, a parameter of the model: it may match anything or throw.
  The document is taken to be in no-quirks mode (it has a doctype), where class names and
  identifiers are compared exactly.
\<close>

datatype simple = TagSel string | IdSel string | ClassSel string | AttrEq string string

type_synonym compound = "simple list"

definition isLower :: "char \<Rightarrow> bool" where
  "isLower c = (97 \<le> (of_char c :: nat) \<and> (of_char c :: nat) \<le> 122)"

definition isUpper :: "char \<Rightarrow> bool" where
  "isUpper c = (65 \<le> (of_char c :: nat) \<and> (of_char c :: nat) \<le> 90)"

definition isDigit :: "char \<Rightarrow> bool" where
  "isDigit c = (48 \<le> (of_char c :: nat) \<and> (of_char c :: nat) \<le> 57)"

definition isIdentStart :: "char \<Rightarrow> bool" where
  "isIdentStart c = (isLower c \<or> isUpper c \<or> c = CHR ''_'')"

definition isIdentChar :: "char \<Rightarrow> bool" where
  "isIdentChar c = (isIdentStart c \<or> isDigit c \<or> c = CHR ''-'')"

text \<open>Type and attribute names: lower case only, since the host compares them without
  regard to case and the document holds them in lower case.\<close>

definition isNameChar :: "char \<Rightarrow> bool" where
  "isNameChar c = (isLower c \<or> isDigit c \<or> c = CHR ''-'')"

definition isStringSafe :: "char \<Rightarrow> bool" where
  "isStringSafe c = (c \<noteq> CHR 0x22 \<and> c \<noteq> CHR 0x5C \<and> c \<noteq> CHR 0x0A \<and> c \<noteq> CHR 0x0C
     \<and> c \<noteq> CHR 0x0D \<and> c \<noteq> CHR 0x00)"

definition cssStringSafe :: "string \<Rightarrow> bool" where
  "cssStringSafe s = list_all isStringSafe s"

datatype mode =
    Start
  | InTag string
  | InClass string
  | InId string
  | InAttrName string
  | AfterEq string
  | InValue string string
  | AfterValue string string
  | AfterAttr

text \<open>What may follow a complete simple selector inside a compound selector.\<close>

definition delim :: "compound \<Rightarrow> char \<Rightarrow> (mode \<times> compound) option" where
  "delim acc c =
     (if c = CHR ''.'' then Some (InClass [], acc)
      else if c = CHR ''#'' then Some (InId [], acc)
      else if c = CHR ''['' then Some (InAttrName [], acc)
      else None)"

fun step :: "mode \<Rightarrow> compound \<Rightarrow> char \<Rightarrow> (mode \<times> compound) option" where
  "step Start acc c =
     (if isLower c then Some (InTag [c], acc) else delim acc c)"
| "step (InTag n) acc c =
     (if isNameChar c then Some (InTag (n @ [c]), acc) else delim (acc @ [TagSel n]) c)"
| "step (InClass n) acc c =
     (if n = [] then (if isIdentStart c then Some (InClass [c], acc) else None)
      else if isIdentChar c then Some (InClass (n @ [c]), acc)
      else delim (acc @ [ClassSel n]) c)"
| "step (InId n) acc c =
     (if n = [] then (if isIdentStart c then Some (InId [c], acc) else None)
      else if isIdentChar c then Some (InId (n @ [c]), acc)
      else delim (acc @ [IdSel n]) c)"
| "step (InAttrName n) acc c =
     (if n = [] then (if isLower c then Some (InAttrName [c], acc) else None)
      else if isNameChar c then Some (InAttrName (n @ [c]), acc)
      else if c = CHR ''='' \<and> take 5 n = ''data-'' then Some (AfterEq n, acc)
      else None)"
| "step (AfterEq n) acc c =
     (if c = CHR 0x22 then Some (InValue n [], acc) else None)"
| "step (InValue n v) acc c =
     (if c = CHR 0x22 then Some (AfterValue n v, acc)
      else if isStringSafe c then Some (InValue n (v @ [c]), acc)
      else None)"
| "step (AfterValue n v) acc c =
     (if c = CHR '']'' then Some (AfterAttr, acc @ [AttrEq n v]) else None)"
| "step AfterAttr acc c = delim acc c"

fun finish :: "mode \<Rightarrow> compound \<Rightarrow> compound option" where
  "finish (InTag n) acc = Some (acc @ [TagSel n])"
| "finish (InClass n) acc = (if n = [] then None else Some (acc @ [ClassSel n]))"
| "finish (InId n) acc = (if n = [] then None else Some (acc @ [IdSel n]))"
| "finish AfterAttr acc = Some acc"
| "finish _ acc = None"

fun scan :: "mode \<Rightarrow> compound \<Rightarrow> string \<Rightarrow> compound option" where
  "scan m acc [] = finish m acc"
| "scan m acc (c # cs) =
     (case step m acc c of None \<Rightarrow> None | Some (m', acc') \<Rightarrow> scan m' acc' cs)"

text \<open>\<open>None\<close>: the string is outside the interpreted fragment.\<close>

definition parseSelector :: "string \<Rightarrow> compound option" where
  "parseSelector s = scan Start [] s"

fun matchesSimple :: "element \<Rightarrow> simple \<Rightarrow> bool" where
  "matchesSimple e (TagSel t) = (tag e = t)"
| "matchesSimple e (IdSel i) = (map_of (attrs e) ''id'' = Some i)"
| "matchesSimple e (ClassSel c) = (c \<in> set (classes e))"
| "matchesSimple e (AttrEq n v) = (map_of (attrs e) n = Some v)"

definition matches :: "element \<Rightarrow> compound \<Rightarrow> bool" where
  "matches e sel = list_all (matchesSimple e) sel"

text \<open>All elements matching a compound selector, in tree order.\<close>

definition selectAll :: "document \<Rightarrow> compound \<Rightarrow> nat list" where
  "selectAll d sel = filter (\<lambda>i. matches (d ! i) sel) [0..<length d]"

text \<open>The host's selector engine for the strings the model does not interpret: the
  matching elements in tree order, or an exception.\<close>

type_synonym engine = "document \<Rightarrow> string \<Rightarrow> error + nat list"

definition matchSelectors :: "engine \<Rightarrow> document \<Rightarrow> string \<Rightarrow> error + nat list" where
  "matchSelectors eng d s =
     (case parseSelector s of Some sel \<Rightarrow> Inr (selectAll d sel) | None \<Rightarrow> eng d s)"

text \<open>\<^verbatim>\<open>document.querySelectorAll(s)\<close> and \<^verbatim>\<open>document.querySelector(s)\<close> (the first
  match in tree order, or \<^verbatim>\<open>null\<close>).\<close>

definition querySelectorAll :: "engine \<Rightarrow> document \<Rightarrow> string \<Rightarrow> error + nat list" where
  "querySelectorAll eng d s = matchSelectors eng d s"

definition querySelector :: "engine \<Rightarrow> document \<Rightarrow> string \<Rightarrow> error + nat option" where
  "querySelector eng d s =
     (case matchSelectors eng d s of
        Inl err \<Rightarrow> Inl err
      | Inr [] \<Rightarrow> Inr None
      | Inr (i # _) \<Rightarrow> Inr (Some i))"

section \<open>The state of the page and the effects of the script\<close>

datatype scrollBehavior = Smooth | Instant | Auto

datatype scrollBlock = BlockStart | BlockCenter | BlockEnd | BlockNearest

text \<open>What the script asks of the host, in order: \<^verbatim>\<open>e.preventDefault()\<close> and
  \<^verbatim>\<open>element.scrollIntoView({behavior, block})\<close>.\<close>

datatype effect = PreventDefault | ScrollIntoView nat scrollBehavior scrollBlock

text \<open>A registered click listener: the arrow function of the \<^verbatim>\<open>navLinks.forEach\<close>
  loop, which captures its link, or the one of the logo.\<close>

datatype listener = NavLinkClick nat | LogoClick

text \<open>
  The module-level constants \<^verbatim>\<open>sections\<close> and \<^verbatim>\<open>navLinks\<close> are static node
  lists, taken once; the document is live; \<open>clickListeners\<close> and \<open>observed\<close> are what
  \<^verbatim>\<open>addEventListener\<close> and \<^verbatim>\<open>observer.observe\<close> have registered.
\<close>

record state =
  doc :: document
  sections :: "nat list"
  navLinks :: "nat list"
  clickListeners :: "(nat \<times> listener) list"
  observed :: "nat list"
  effects :: "effect list"

text \<open>An operation of the script ends normally in a state, or throws, leaving the
  state it had reached.\<close>

type_synonym outcome = "(error \<times> state) + state"

definition stateAfter :: "outcome \<Rightarrow> state" where
  "stateAfter r = (case r of Inl (err, st) \<Rightarrow> st | Inr st \<Rightarrow> st)"

definition emit :: "effect \<Rightarrow> state \<Rightarrow> state" where
  "emit x st = st\<lparr>effects := effects st @ [x]\<rparr>"

section \<open>Feature 1: smooth scroll on click\<close>

text \<open>The click listener of a navigation link (lines 18 to 32).\<close>

definition navLinkClick :: "engine \<Rightarrow> nat \<Rightarrow> state \<Rightarrow> outcome" where
  "navLinkClick eng link st =
     (let st1 = emit PreventDefault st;
          targetId = getAttribute (doc st1) link ''href''
      in case querySelector eng (doc st1) (toString targetId) of
           Inl err \<Rightarrow> Inl (err, st1)
         | Inr None \<Rightarrow> Inr st1
         | Inr (Some targetSection) \<Rightarrow>
             Inr (emit (ScrollIntoView targetSection Smooth BlockStart) st1))"

section \<open>Feature 2: active link highlighting\<close>

text \<open>
  The options handed to \<^verbatim>\<open>IntersectionObserver\<close> (lines 47 to 60). The root margin
  is a string in the syntax of the CSS margin shorthand; the host parses it into four
  lengths, each in pixels or in percent. A negative margin shrinks the root rectangle.
\<close>

record observerInit =
  root :: "nat option"
  rootMargin :: string
  threshold :: rat

definition observerOptions :: observerInit where
  "observerOptions = \<lparr>root = None, rootMargin = ''-70% 0px -70% 0px'', threshold = 0\<rparr>"

datatype marginLength = Px int | Percent int

record margins =
  marginTop :: marginLength
  marginRight :: marginLength
  marginBottom :: marginLength
  marginLeft :: marginLength

fun readDigits :: "nat \<Rightarrow> string \<Rightarrow> nat \<times> string" where
  "readDigits n [] = (n, [])"
| "readDigits n (c # cs) =
     (if isDigit c then readDigits (10 * n + (of_char c - 48)) cs else (n, c # cs))"

text \<open>One component of the margin: an optional minus sign, decimal digits, and the
  unit \<^verbatim>\<open>px\<close> or \<^verbatim>\<open>%\<close>. (Fractions, and numbers beyond the 32-bit range, are not
  interpreted.)\<close>

definition parseLength :: "string \<Rightarrow> marginLength option" where
  "parseLength s =
     (let neg = (case s of [] \<Rightarrow> False | c # _ \<Rightarrow> c = CHR ''-'');
          r = (if neg then tl s else s)
      in case r of
           [] \<Rightarrow> None
         | c # _ \<Rightarrow>
             if \<not> isDigit c then None
             else (case readDigits 0 r of (n, u) \<Rightarrow>
               let v = (if neg then - int n else int n)
               in if n > 2147483647 then None
                  else if u = ''px'' then Some (Px v)
                  else if u = ''%'' then Some (Percent v)
                  else None))"

fun splitSpaces :: "string \<Rightarrow> string \<Rightarrow> string list" where
  "splitSpaces cur [] = (if cur = [] then [] else [cur])"
| "splitSpaces cur (c # cs) =
     (if c = CHR '' '' then (if cur = [] then splitSpaces [] cs else cur # splitSpaces [] cs)
      else splitSpaces (cur @ [c]) cs)"

fun parseLengths :: "string list \<Rightarrow> marginLength list option" where
  "parseLengths [] = Some []"
| "parseLengths (t # ts) =
     (case parseLength t of
        None \<Rightarrow> None
      | Some l \<Rightarrow> (case parseLengths ts of None \<Rightarrow> None | Some ls \<Rightarrow> Some (l # ls)))"

text \<open>One to four components, expanded as the margin shorthand is: top, right, bottom,
  left. The empty string gives no margin at all. \<open>None\<close>: the string is not a margin,
  or not one that is interpreted here.\<close>

definition parseRootMargin :: "string \<Rightarrow> margins option" where
  "parseRootMargin s =
     (case parseLengths (splitSpaces [] s) of
        Some [] \<Rightarrow>
          Some \<lparr>marginTop = Px 0, marginRight = Px 0, marginBottom = Px 0, marginLeft = Px 0\<rparr>
      | Some [a] \<Rightarrow> Some \<lparr>marginTop = a, marginRight = a, marginBottom = a, marginLeft = a\<rparr>
      | Some [a, b] \<Rightarrow> Some \<lparr>marginTop = a, marginRight = b, marginBottom = a, marginLeft = b\<rparr>
      | Some [a, b, c] \<Rightarrow>
          Some \<lparr>marginTop = a, marginRight = b, marginBottom = c, marginLeft = b\<rparr>
      | Some [a, b, c, e] \<Rightarrow>
          Some \<lparr>marginTop = a, marginRight = b, marginBottom = c, marginLeft = e\<rparr>
      | _ \<Rightarrow> None)"

text \<open>A vertical margin against a viewport of height \<open>h\<close>.\<close>

fun resolve :: "marginLength \<Rightarrow> rat \<Rightarrow> rat" where
  "resolve (Px n) h = of_int n"
| "resolve (Percent p) h = of_int p * h / 100"

text \<open>
  The band the options describe in a viewport of height \<open>h\<close>, measured downwards from
  the top of the viewport: the viewport's top edge moved up by the top margin and its
  bottom edge moved down by the bottom margin. When the margins leave a negative height,
  the band is empty: the host keeps the top edge and gives the rectangle the height 0.
  The result is the pair (top edge, bottom edge).
\<close>

definition viewportBand :: "observerInit \<Rightarrow> rat \<Rightarrow> (rat \<times> rat) option" where
  "viewportBand opts h =
     (case parseRootMargin (rootMargin opts) of
        None \<Rightarrow> None
      | Some m \<Rightarrow>
          (let top = 0 - resolve (marginTop m) h;
               bottom = h + resolve (marginBottom m) h
           in Some (top, max top bottom)))"

text \<open>\<^verbatim>\<open>removeAllActiveClasses\<close> (lines 63 to 67).\<close>

definition removeAllActiveClasses :: "state \<Rightarrow> state" where
  "removeAllActiveClasses st =
     st\<lparr>doc := fold (\<lambda>link d. classListRemove d link ''active'') (navLinks st) (doc st)\<rparr>"

text \<open>The selector string the template literal of \<^verbatim>\<open>setActiveLink\<close> builds.\<close>

definition activeLinkSelector :: "string \<Rightarrow> string" where
  "activeLinkSelector sectionId =
     ''.nav-link[data-target='' @ [CHR 0x22] @ sectionId @ [CHR 0x22] @ '']''"

text \<open>\<^verbatim>\<open>setActiveLink\<close> (lines 70 to 80); \<open>sectionId\<close> may be \<^verbatim>\<open>null\<close>.\<close>

definition setActiveLink :: "engine \<Rightarrow> string option \<Rightarrow> state \<Rightarrow> outcome" where
  "setActiveLink eng sectionId st =
     (case querySelector eng (doc st) (activeLinkSelector (toString sectionId)) of
        Inl err \<Rightarrow> Inl (err, st)
      | Inr None \<Rightarrow> Inr st
      | Inr (Some activeLink) \<Rightarrow>
          (let st1 = removeAllActiveClasses st
           in Inr (st1\<lparr>doc := classListAdd (doc st1) activeLink ''active''\<rparr>)))"

text \<open>One record of a visibility notification: the observed element and whether it
  is now inside the band.\<close>

record entry =
  target :: nat
  isIntersecting :: bool

text \<open>The observer's callback (lines 83 to 100): \<^verbatim>\<open>entries.forEach\<close>, which an
  exception leaves.\<close>

fun observerCallback :: "engine \<Rightarrow> entry list \<Rightarrow> state \<Rightarrow> outcome" where
  "observerCallback eng [] st = Inr st"
| "observerCallback eng (e # es) st =
     (if isIntersecting e then
        (let sectionId = getAttribute (doc st) (target e) ''id''
         in case setActiveLink eng sectionId st of
              Inl x \<Rightarrow> Inl x
            | Inr st' \<Rightarrow> observerCallback eng es st')
      else observerCallback eng es st)"

section \<open>The logo and the run of the script\<close>

text \<open>The click listener of the logo (lines 118 to 124): \<^verbatim>\<open>scrollIntoView\<close> is called
  on whatever \<^verbatim>\<open>querySelector("#home")\<close> returns, \<^verbatim>\<open>null\<close> included.\<close>

definition logoClick :: "engine \<Rightarrow> state \<Rightarrow> outcome" where
  "logoClick eng st =
     (let st1 = emit PreventDefault st
      in case querySelector eng (doc st1) ''#home'' of
           Inl err \<Rightarrow> Inl (err, st1)
         | Inr None \<Rightarrow> Inl (TypeError, st1)
         | Inr (Some home) \<Rightarrow> Inr (emit (ScrollIntoView home Smooth BlockStart) st1))"

text \<open>
  The top-level statements of the script, in their order: the two node lists, a click
  listener on every navigation link, the observer on every section, the active class on
  \<^verbatim>\<open>navLinks[0]\<close> if there is one, then the logo, on which \<^verbatim>\<open>addEventListener\<close> is
  called without a test for \<^verbatim>\<open>null\<close>.
\<close>

definition init :: "engine \<Rightarrow> document \<Rightarrow> outcome" where
  "init eng d =
     (let st0 = \<lparr>doc = d, sections = [], navLinks = [], clickListeners = [],
                 observed = [], effects = []\<rparr>
      in case querySelectorAll eng d ''section'' of
           Inl err \<Rightarrow> Inl (err, st0)
         | Inr secs \<Rightarrow>
        (case querySelectorAll eng d ''.nav-link'' of
           Inl err \<Rightarrow> Inl (err, st0\<lparr>sections := secs\<rparr>)
         | Inr links \<Rightarrow>
        (let st1 = st0\<lparr>sections := secs, navLinks := links,
                       clickListeners := map (\<lambda>link. (link, NavLinkClick link)) links\<rparr>;
             st2 = st1\<lparr>observed := secs\<rparr>;
             st3 = (if length links > 0
                    then st2\<lparr>doc := classListAdd (doc st2) (links ! 0) ''active''\<rparr>
                    else st2)
         in case querySelector eng (doc st3) ''.logo'' of
              Inl err \<Rightarrow> Inl (err, st3)
            | Inr None \<Rightarrow> Inl (TypeError, st3)
            | Inr (Some logo) \<Rightarrow>
                Inr (st3\<lparr>clickListeners := clickListeners st3 @ [(logo, LogoClick)]\<rparr>))))"

text \<open>What the host can do after the script has run: deliver a click to a listener, or
  a batch of entries to the observer's callback. (It does so for registered listeners and
  observed sections only; the properties below hold for every delivery.)\<close>

datatype operation = Click listener | Notify "entry list"

fun perform :: "engine \<Rightarrow> operation \<Rightarrow> state \<Rightarrow> outcome" where
  "perform eng (Click (NavLinkClick link)) st = navLinkClick eng link st"
| "perform eng (Click LogoClick) st = logoClick eng st"
| "perform eng (Notify entries) st = observerCallback eng entries st"

text \<open>A page's life: the script runs, then the operations happen one after the other;
  an exception ends the operation that threw, not the page.\<close>

fun run :: "engine \<Rightarrow> operation list \<Rightarrow> state \<Rightarrow> state" where
  "run eng [] st = st"
| "run eng (op # ops) st = run eng ops (stateAfter (perform eng op st))"

definition pageAfter :: "engine \<Rightarrow> document \<Rightarrow> operation list \<Rightarrow> state" where
  "pageAfter eng d ops = run eng ops (stateAfter (init eng d))"



text \<open>The navigation links that carry the active marker.\<close>

definition isActive :: "state \<Rightarrow> nat \<Rightarrow> bool" where
  "isActive st link = (''active'' \<in> set (classes (doc st ! link)))"

definition activeLinks :: "state \<Rightarrow> nat list" where
  "activeLinks st = filter (isActive st) (navLinks st)"

text \<open>The exception an operation ended with, if any.\<close>

definition thrown :: "outcome \<Rightarrow> error option" where
  "thrown r = (case r of Inl (err, st) \<Rightarrow> Some err | Inr st \<Rightarrow> None)"

section \<open>The vocabulary of the specification\<close>

text \<open>The identifier of the section an entry reports, as the callback reads it.\<close>

definition sectionId :: "document \<Rightarrow> entry \<Rightarrow> string" where
  "sectionId d e = toString (getAttribute d (target e) ''id'')"

text \<open>The navigation link whose \<^verbatim>\<open>data-target\<close> is a given identifier: the first such
  link of the collection.\<close>

definition linkFor :: "document \<Rightarrow> nat list \<Rightarrow> string \<Rightarrow> nat option" where
  "linkFor d links ident = find (\<lambda>l. getAttribute d l ''data-target'' = Some ident) links"

text \<open>The entries of a batch that report a section inside the band and have a matching
  navigation link; and the link of the last of them.\<close>

definition entering :: "document \<Rightarrow> nat list \<Rightarrow> entry list \<Rightarrow> entry list" where
  "entering d links entries =
     filter (\<lambda>e. isIntersecting e \<and> linkFor d links (sectionId d e) \<noteq> None) entries"

definition lastEntering :: "document \<Rightarrow> nat list \<Rightarrow> entry list \<Rightarrow> nat option" where
  "lastEntering d links entries =
     (case entering d links entries of
        [] \<Rightarrow> None
      | x # xs \<Rightarrow> linkFor d links (sectionId d (last (x # xs))))"

text \<open>The section identifiers a batch makes the callback put into a selector string
  are free of the characters that would change the selector.\<close>

definition plainIds :: "document \<Rightarrow> entry list \<Rightarrow> bool" where
  "plainIds d entries =
     list_all (\<lambda>e. isIntersecting e \<longrightarrow> cssStringSafe (sectionId d e)) entries"

fun plainOperation :: "document \<Rightarrow> operation \<Rightarrow> bool" where
  "plainOperation d (Click l) = True"
| "plainOperation d (Notify entries) = plainIds d entries"


text \<open>The navigation links of the markup other than the first carry no active marker
  of their own.\<close>

definition markupUnmarked :: "document \<Rightarrow> bool" where
  "markupUnmarked d =
     list_all (\<lambda>l. ''active'' \<notin> set (classes (d ! l))) (tl (selectAll d [ClassSel ''nav-link'']))"

text \<open>Two documents that differ at most in who carries the class \<^verbatim>\<open>active\<close>: the
  script changes nothing else of a document.\<close>

definition sameButActive :: "document \<Rightarrow> document \<Rightarrow> bool" where
  "sameButActive d d' =
     (length d' = length d \<and>
      (\<forall>j. tag (d' ! j) = tag (d ! j) \<and> attrs (d' ! j) = attrs (d ! j) \<and>
           set (classes (d' ! j)) - {''active''} = set (classes (d ! j)) - {''active''}))"

text \<open>"Clear the active flag from every navigation link, then set it on one".\<close>

definition markOnly :: "nat \<Rightarrow> state \<Rightarrow> state" where
  "markOnly a st =
     (let st1 = removeAllActiveClasses st
      in st1\<lparr>doc := classListAdd (doc st1) a ''active''\<rparr>)"

text \<open>Exactly one navigation link is active, or none when the page has none.\<close>

definition oneActive :: "state \<Rightarrow> bool" where
  "oneActive st = (length (activeLinks st) = (if navLinks st = [] then 0 else 1))"

section \<open>Example pages\<close>

text \<open>A host engine that rejects every selector string the model does not interpret.\<close>

definition rejecting :: engine where
  "rejecting d s = Inl SyntaxError"

text \<open>A page as the script expects it: a logo, three navigation links and their three
  sections.\<close>

definition examplePage :: document where
  "examplePage =
     [\<lparr>tag = ''a'', attrs = [(''href'', ''#projects'')], classes = [''logo'']\<rparr>,
      \<lparr>tag = ''a'', attrs = [(''href'', ''#home''), (''data-target'', ''home'')],
         classes = [''nav-link'']\<rparr>,
      \<lparr>tag = ''a'', attrs = [(''href'', ''#about''), (''data-target'', ''about'')],
         classes = [''nav-link'']\<rparr>,
      \<lparr>tag = ''a'', attrs = [(''href'', ''#projects''), (''data-target'', ''projects'')],
         classes = [''nav-link'']\<rparr>,
      \<lparr>tag = ''section'', attrs = [(''id'', ''home'')], classes = []\<rparr>,
      \<lparr>tag = ''section'', attrs = [(''id'', ''about'')], classes = []\<rparr>,
      \<lparr>tag = ''section'', attrs = [(''id'', ''projects'')], classes = []\<rparr>]"

text \<open>The same page without the logo.\<close>

definition pageWithoutLogo :: document where
  "pageWithoutLogo = tl examplePage"

text \<open>A page whose first section is called \<^verbatim>\<open>top\<close>: no element has the identifier
  \<^verbatim>\<open>home\<close>.\<close>

definition pageWithoutHome :: document where
  "pageWithoutHome =
     [\<lparr>tag = ''a'', attrs = [(''href'', ''#top'')], classes = [''logo'']\<rparr>,
      \<lparr>tag = ''a'', attrs = [(''href'', ''#top''), (''data-target'', ''top'')],
         classes = [''nav-link'']\<rparr>,
      \<lparr>tag = ''section'', attrs = [(''id'', ''top'')], classes = []\<rparr>]"

text \<open>A page with a link to a section that does not exist, and a section that no
  link names.\<close>

definition pageWithStrays :: document where
  "pageWithStrays =
     [\<lparr>tag = ''a'', attrs = [(''href'', ''#home'')], classes = [''logo'']\<rparr>,
      \<lparr>tag = ''a'', attrs = [(''href'', ''#home''), (''data-target'', ''home'')],
         classes = [''nav-link'', ''active'']\<rparr>,
      \<lparr>tag = ''a'', attrs = [(''href'', ''#missing''), (''data-target'', ''missing'')],
         classes = [''nav-link'', ''active'']\<rparr>,
      \<lparr>tag = ''section'', attrs = [(''id'', ''home'')], classes = []\<rparr>,
      \<lparr>tag = ''section'', attrs = [(''id'', ''gallery'')], classes = []\<rparr>]"

text \<open>A page with one section and no navigation link.\<close>

definition pageWithoutLinks :: document where
  "pageWithoutLinks =
     [\<lparr>tag = ''a'', attrs = [(''href'', ''#home'')], classes = [''logo'']\<rparr>,
      \<lparr>tag = ''section'', attrs = [(''id'', ''home'')], classes = []\<rparr>]"

text \<open>The example page with the active marker on all three links in the markup.\<close>

definition pageMarked :: document where
  "pageMarked =
     [\<lparr>tag = ''a'', attrs = [(''href'', ''#projects'')], classes = [''logo'']\<rparr>,
      \<lparr>tag = ''a'', attrs = [(''href'', ''#home''), (''data-target'', ''home'')],
         classes = [''nav-link'', ''active'']\<rparr>,
      \<lparr>tag = ''a'', attrs = [(''href'', ''#about''), (''data-target'', ''about'')],
         classes = [''nav-link'', ''active'']\<rparr>,
      \<lparr>tag = ''a'', attrs = [(''href'', ''#projects''), (''data-target'', ''projects'')],
         classes = [''nav-link'', ''active'']\<rparr>,
      \<lparr>tag = ''section'', attrs = [(''id'', ''home'')], classes = []\<rparr>,
      \<lparr>tag = ''section'', attrs = [(''id'', ''about'')], classes = []\<rparr>,
      \<lparr>tag = ''section'', attrs = [(''id'', ''projects'')], classes = []\<rparr>]"

text \<open>The example page with a logo that carries no attribute at all.\<close>

definition pageWithBareLogo :: document where
  "pageWithBareLogo = examplePage[0 := \<lparr>tag = ''a'', attrs = [], classes = [''logo'']\<rparr>]"

text \<open>A page whose first section has the identifier \<^verbatim>\<open>a"b\<close>, with a quote in it.\<close>

definition pageWithQuotedId :: document where
  "pageWithQuotedId =
     [\<lparr>tag = ''a'', attrs = [(''href'', ''#home'')], classes = [''logo'']\<rparr>,
      \<lparr>tag = ''a'', attrs = [(''href'', ''#home''), (''data-target'', ''home'')],
         classes = [''nav-link'']\<rparr>,
      \<lparr>tag = ''a'', attrs = [(''href'', ''#about''), (''data-target'', ''about'')],
         classes = [''nav-link'']\<rparr>,
      \<lparr>tag = ''section'', attrs = [(''id'', ''home'')], classes = []\<rparr>,
      \<lparr>tag = ''section'', attrs = [(''id'', [CHR ''a'', CHR 0x22, CHR ''b''])], classes = []\<rparr>,
      \<lparr>tag = ''section'', attrs = [(''id'', ''about'')], classes = []\<rparr>]"

text \<open>A page with a section that has no identifier, and a link whose \<^verbatim>\<open>data-target\<close>
  is the word \<^verbatim>\<open>null\<close>.\<close>

definition pageWithNullTarget :: document where
  "pageWithNullTarget =
     [\<lparr>tag = ''a'', attrs = [(''href'', ''#home'')], classes = [''logo'']\<rparr>,
      \<lparr>tag = ''a'', attrs = [(''href'', ''#home''), (''data-target'', ''home'')],
         classes = [''nav-link'']\<rparr>,
      \<lparr>tag = ''a'', attrs = [(''href'', ''#home''), (''data-target'', ''null'')],
         classes = [''nav-link'']\<rparr>,
      \<lparr>tag = ''section'', attrs = [(''id'', ''home'')], classes = []\<rparr>,
      \<lparr>tag = ''section'', attrs = [], classes = []\<rparr>]"

text \<open>A page whose links have an \<^verbatim>\<open>href\<close> that is the bare \<^verbatim>\<open>#\<close>, one that is a
  class selector, and one that names the logo, which is no section.\<close>

definition pageWithOddLinks :: document where
  "pageWithOddLinks =
     [\<lparr>tag = ''a'', attrs = [(''href'', ''#home''), (''id'', ''brand'')], classes = [''logo'']\<rparr>,
      \<lparr>tag = ''a'', attrs = [(''href'', ''#home''), (''data-target'', ''home'')],
         classes = [''nav-link'']\<rparr>,
      \<lparr>tag = ''a'', attrs = [(''href'', ''#''), (''data-target'', ''about'')],
         classes = [''nav-link'']\<rparr>,
      \<lparr>tag = ''a'', attrs = [(''href'', ''.logo''), (''data-target'', ''projects'')],
         classes = [''nav-link'']\<rparr>,
      \<lparr>tag = ''a'', attrs = [(''href'', ''#brand''), (''data-target'', ''contact'')],
         classes = [''nav-link'']\<rparr>,
      \<lparr>tag = ''section'', attrs = [(''id'', ''home'')], classes = []\<rparr>]"

text \<open>A page whose only navigation link is the logo as well, and names no section.\<close>

definition pageWithLogoLink :: document where
  "pageWithLogoLink =
     [\<lparr>tag = ''a'', attrs = [(''href'', ''#missing''), (''data-target'', ''home'')],
         classes = [''nav-link'', ''logo'']\<rparr>,
      \<lparr>tag = ''section'', attrs = [(''id'', ''home'')], classes = []\<rparr>]"

section \<open>Properties of the host operations\<close>

lemmas charClasses = isLower_def isUpper_def isDigit_def isIdentStart_def isIdentChar_def
  isNameChar_def isStringSafe_def

lemma parse_section: "parseSelector ''section'' = Some [TagSel ''section'']"
  by (simp add: parseSelector_def delim_def charClasses)

lemma parse_navLink: "parseSelector ''.nav-link'' = Some [ClassSel ''nav-link'']"
  by (simp add: parseSelector_def delim_def charClasses)

lemma parse_logo: "parseSelector ''.logo'' = Some [ClassSel ''logo'']"
  by (simp add: parseSelector_def delim_def charClasses)

lemma parse_home: "parseSelector ''#home'' = Some [IdSel ''home'']"
  by (simp add: parseSelector_def delim_def charClasses)

lemma scan_value:
  "list_all isStringSafe s \<Longrightarrow>
   scan (InValue n v) acc (s @ r) = scan (InValue n (v @ s)) acc r"
proof (induction s arbitrary: v)
  case Nil
  then show ?case by simp
next
  case (Cons c s)
  then have "c \<noteq> CHR 0x22" and "isStringSafe c" by (auto simp: isStringSafe_def)
  with Cons show ?case by simp
qed

lemma parse_activeLinkSelector:
  assumes "cssStringSafe s"
  shows "parseSelector (activeLinkSelector s) = Some [ClassSel ''nav-link'', AttrEq ''data-target'' s]"
proof -
  have "scan Start [] (activeLinkSelector s)
        = scan (InValue ''data-target'' []) [ClassSel ''nav-link''] (s @ [CHR 0x22, CHR '']''])"
    by (simp add: activeLinkSelector_def delim_def charClasses)
  also have "\<dots> = scan (InValue ''data-target'' s) [ClassSel ''nav-link''] [CHR 0x22, CHR '']'']"
    using assms scan_value[of s "''data-target''" "[]"] by (simp add: cssStringSafe_def)
  also have "\<dots> = Some [ClassSel ''nav-link'', AttrEq ''data-target'' s]"
    by simp
  finally show ?thesis by (simp add: parseSelector_def)
qed

subsection \<open>Selecting\<close>

lemma selectAll_distinct: "distinct (selectAll d sel)"
  by (simp add: selectAll_def)

lemma selectAll_bound: "i \<in> set (selectAll d sel) \<Longrightarrow> i < length d"
  by (simp add: selectAll_def)


lemma find_filter:
  "find P xs = (case filter P xs of [] \<Rightarrow> None | x # _ \<Rightarrow> Some x)"
  by (induction xs) auto

lemma selectAll_navLink_target:
  "selectAll d [ClassSel ''nav-link'', AttrEq ''data-target'' ident]
   = filter (\<lambda>l. getAttribute d l ''data-target'' = Some ident)
       (selectAll d [ClassSel ''nav-link''])"
  by (auto simp: selectAll_def matches_def getAttribute_def intro: filter_cong)

lemma querySelector_activeLink:
  assumes "cssStringSafe ident"
  shows "querySelector eng d (activeLinkSelector ident)
         = Inr (linkFor d (selectAll d [ClassSel ''nav-link'']) ident)"
  using assms
  by (simp add: querySelector_def matchSelectors_def parse_activeLinkSelector
      selectAll_navLink_target linkFor_def find_filter split: list.splits)

lemma linkFor_member: "linkFor d links ident = Some a \<Longrightarrow> a \<in> set links"
  by (auto simp: linkFor_def find_Some_iff)


subsection \<open>Class lists\<close>

lemma classListRemove_length [simp]: "length (classListRemove d i t) = length d"
  by (simp add: classListRemove_def)

lemma classListAdd_length [simp]: "length (classListAdd d i t) = length d"
  by (simp add: classListAdd_def)

lemma classListRemove_nth:
  "classListRemove d i t ! j =
     (if j = i \<and> i < length d then (d ! j)\<lparr>classes := removeAll t (classes (d ! j))\<rparr> else d ! j)"
  by (cases "i < length d") (auto simp: classListRemove_def list_update_beyond)

lemma classListAdd_nth:
  "classListAdd d i t ! j =
     (if j = i \<and> i < length d then (d ! j)\<lparr>classes := addToken t (classes (d ! j))\<rparr> else d ! j)"
  by (cases "i < length d") (auto simp: classListAdd_def list_update_beyond)

lemma fold_remove_length [simp]:
  "length (fold (\<lambda>l d. classListRemove d l t) ls d) = length d"
  by (induction ls arbitrary: d) auto

lemma fold_remove_nth:
  "fold (\<lambda>l d. classListRemove d l t) ls d ! j =
     (if j \<in> set ls \<and> j < length d then (d ! j)\<lparr>classes := removeAll t (classes (d ! j))\<rparr>
      else d ! j)"
proof (induction ls arbitrary: d)
  case Nil
  then show ?case by simp
next
  case (Cons l ls)
  show ?case
    by (auto simp add: Cons.IH classListRemove_nth)
qed

lemma markOnly_fields [simp]:
  "sections (markOnly a st) = sections st"
  "navLinks (markOnly a st) = navLinks st"
  "clickListeners (markOnly a st) = clickListeners st"
  "observed (markOnly a st) = observed st"
  "effects (markOnly a st) = effects st"
  by (simp_all add: markOnly_def removeAllActiveClasses_def Let_def)

lemma markOnly_length [simp]: "length (doc (markOnly a st)) = length (doc st)"
  by (simp add: markOnly_def removeAllActiveClasses_def Let_def)

lemma markOnly_nth:
  "doc (markOnly a st) ! j =
     (if j = a \<and> a < length (doc st)
      then (doc st ! j)\<lparr>classes :=
             addToken ''active''
               (if a \<in> set (navLinks st) then removeAll ''active'' (classes (doc st ! j))
                else classes (doc st ! j))\<rparr>
      else if j \<in> set (navLinks st) \<and> j < length (doc st)
      then (doc st ! j)\<lparr>classes := removeAll ''active'' (classes (doc st ! j))\<rparr>
      else doc st ! j)"
  by (simp add: markOnly_def removeAllActiveClasses_def Let_def classListAdd_nth fold_remove_nth)

lemma set_addToken [simp]: "set (addToken t ts) = insert t (set ts)"
  by (auto simp: addToken_def)

lemma sameButActive_refl [simp]: "sameButActive d d"
  by (simp add: sameButActive_def)

lemma sameButActive_trans:
  "sameButActive d d' \<Longrightarrow> sameButActive d' d'' \<Longrightarrow> sameButActive d d''"
  by (simp add: sameButActive_def)

lemma sameButActive_markOnly: "sameButActive (doc st) (doc (markOnly a st))"
  by (auto simp add: sameButActive_def markOnly_nth)

lemma sameButActive_classListAdd: "sameButActive d (classListAdd d i ''active'')"
  by (auto simp add: sameButActive_def classListAdd_nth)

lemma sameButActive_selectAll:
  assumes "sameButActive d d'"
  shows "selectAll d' [ClassSel ''nav-link''] = selectAll d [ClassSel ''nav-link'']"
proof -
  have "(''nav-link'' \<in> set (classes (d' ! j))) = (''nav-link'' \<in> set (classes (d ! j)))" for j
  proof -
    have "set (classes (d' ! j)) - {''active''} = set (classes (d ! j)) - {''active''}"
      using assms by (simp add: sameButActive_def)
    then show ?thesis by blast
  qed
  moreover have "length d' = length d" using assms by (simp add: sameButActive_def)
  ultimately show ?thesis by (simp add: selectAll_def matches_def)
qed

lemma sameButActive_getAttribute:
  "sameButActive d d' \<Longrightarrow> getAttribute d' i name = getAttribute d i name"
  by (simp add: sameButActive_def getAttribute_def)

lemma sameButActive_sectionId: "sameButActive d d' \<Longrightarrow> sectionId d' e = sectionId d e"
  by (simp add: sectionId_def sameButActive_getAttribute)

lemma sameButActive_linkFor:
  "sameButActive d d' \<Longrightarrow> linkFor d' links ident = linkFor d links ident"
  by (simp add: linkFor_def sameButActive_getAttribute)

section \<open>Clearing all markers and setting one\<close>

lemma setActiveLink_plain:
  assumes "navLinks st = selectAll (doc st) [ClassSel ''nav-link'']"
    and "cssStringSafe (toString sid)"
  shows "setActiveLink eng sid st =
         Inr (case linkFor (doc st) (navLinks st) (toString sid) of
                None \<Rightarrow> st | Some a \<Rightarrow> markOnly a st)"
  using assms
  by (simp add: setActiveLink_def querySelector_activeLink markOnly_def Let_def
      split: option.splits)

lemma filter_only:
  "distinct xs \<Longrightarrow> a \<in> set xs \<Longrightarrow> filter (\<lambda>x. x = a) xs = [a]"
  by (induction xs) (auto simp: filter_empty_conv)

lemma isActive_markOnly:
  assumes "a \<in> set (navLinks st)" and "j \<in> set (navLinks st)"
    and "\<forall>l \<in> set (navLinks st). l < length (doc st)"
  shows "isActive (markOnly a st) j = (j = a)"
  using assms by (auto simp: isActive_def markOnly_nth)

lemma activeLinks_markOnly:
  assumes "navLinks st = selectAll (doc st) [ClassSel ''nav-link'']"
    and "a \<in> set (navLinks st)"
  shows "activeLinks (markOnly a st) = [a]"
proof -
  have bound: "\<forall>l \<in> set (navLinks st). l < length (doc st)"
    using assms(1) by (simp add: selectAll_bound)
  have "filter (isActive (markOnly a st)) (navLinks st) = filter (\<lambda>x. x = a) (navLinks st)"
    by (rule filter_cong) (simp_all add: isActive_markOnly assms(2) bound)
  moreover have "distinct (navLinks st)"
    using assms(1) by (simp add: selectAll_distinct)
  ultimately show ?thesis
    using assms(2) by (simp add: activeLinks_def filter_only)
qed

lemma markOnly_as_update: "markOnly a st = st\<lparr>doc := doc (markOnly a st)\<rparr>"
  by (simp add: markOnly_def removeAllActiveClasses_def Let_def)

lemma addToken_removeAll_twice:
  "addToken t (removeAll t (addToken t (removeAll t cs))) = addToken t (removeAll t cs)"
  by (simp add: addToken_def)

lemma markOnly_doc_idem:
  assumes "a \<in> set (navLinks st)"
  shows "doc (markOnly a (markOnly a st)) = doc (markOnly a st)"
proof (rule nth_equalityI)
  show "length (doc (markOnly a (markOnly a st))) = length (doc (markOnly a st))"
    by simp
next
  fix j
  assume "j < length (doc (markOnly a (markOnly a st)))"
  then have j: "j < length (doc st)" by simp
  show "doc (markOnly a (markOnly a st)) ! j = doc (markOnly a st) ! j"
    using assms j
    by (simp add: markOnly_nth[of a "markOnly a st"] markOnly_nth[of a st]
        addToken_removeAll_twice)
qed

lemma markOnly_idem:
  assumes "a \<in> set (navLinks st)"
  shows "markOnly a (markOnly a st) = markOnly a st"
proof -
  have "markOnly a (markOnly a st) = (markOnly a st)\<lparr>doc := doc (markOnly a (markOnly a st))\<rparr>"
    by (rule markOnly_as_update)
  also have "\<dots> = (markOnly a st)\<lparr>doc := doc (markOnly a st)\<rparr>"
    using assms by (simp add: markOnly_doc_idem)
  also have "\<dots> = markOnly a st" by simp
  finally show ?thesis .
qed

subsection \<open>Batches\<close>

lemma entering_Cons:
  "entering d links (e # es) =
     (if isIntersecting e \<and> linkFor d links (sectionId d e) \<noteq> None
      then e # entering d links es else entering d links es)"
  by (simp add: entering_def)

lemma entering_matched:
  "x \<in> set (entering d links es) \<Longrightarrow> linkFor d links (sectionId d x) \<noteq> None"
  by (simp add: entering_def)

lemma lastEntering_None: "lastEntering d links es = None \<longleftrightarrow> entering d links es = []"
proof (cases "entering d links es")
  case Nil
  then show ?thesis by (simp add: lastEntering_def)
next
  case (Cons x xs)
  then have "last (x # xs) \<in> set (entering d links es)"
    by (metis last_in_set list.distinct(1))
  then have "linkFor d links (sectionId d (last (x # xs))) \<noteq> None"
    by (rule entering_matched)
  with Cons show ?thesis by (simp add: lastEntering_def)
qed

lemma lastEntering_Cons:
  "lastEntering d links (e # es) =
     (case lastEntering d links es of
        Some a \<Rightarrow> Some a
      | None \<Rightarrow> if isIntersecting e then linkFor d links (sectionId d e) else None)"
proof (cases "entering d links es")
  case Nil
  then have "lastEntering d links es = None" by (simp add: lastEntering_None)
  with Nil show ?thesis
    by (auto simp: lastEntering_def entering_Cons)
next
  case (Cons x xs)
  then obtain a where a: "lastEntering d links es = Some a"
    using lastEntering_None[of d links es] by (cases "lastEntering d links es") auto
  with Cons show ?thesis
    by (simp add: lastEntering_def entering_Cons)
qed

lemma sameButActive_lastEntering:
  assumes "sameButActive d d'"
  shows "lastEntering d' links es = lastEntering d links es"
proof -
  have "entering d' links es = entering d links es"
    using assms by (simp add: entering_def sameButActive_sectionId sameButActive_linkFor)
  then show ?thesis
    using assms
    by (simp add: lastEntering_def sameButActive_sectionId sameButActive_linkFor
        split: list.splits)
qed

lemma sameButActive_plainIds:
  "sameButActive d d' \<Longrightarrow> plainIds d' es = plainIds d es"
  by (simp add: plainIds_def sameButActive_sectionId)

lemma observerCallback_plain:
  assumes "navLinks st = selectAll (doc st) [ClassSel ''nav-link'']"
    and "plainIds (doc st) entries"
  shows "\<exists>st'. observerCallback eng entries st = Inr st'
           \<and> sameButActive (doc st) (doc st')
           \<and> navLinks st' = navLinks st
           \<and> effects st' = effects st
           \<and> activeLinks st' =
               (case lastEntering (doc st) (navLinks st) entries of
                  None \<Rightarrow> activeLinks st | Some a \<Rightarrow> [a])
           \<and> (lastEntering (doc st) (navLinks st) entries = None \<longrightarrow> st' = st)"
  using assms
proof (induction entries arbitrary: st)
  case Nil
  then show ?case by (simp add: lastEntering_def entering_def)
next
  case (Cons e es)
  have plain_es: "plainIds (doc st) es"
    using Cons.prems(2) by (simp add: plainIds_def)
  show ?case
  proof (cases "isIntersecting e")
    case False
    from Cons.IH[OF Cons.prems(1) plain_es] obtain st' where
      "observerCallback eng es st = Inr st' \<and> sameButActive (doc st) (doc st')
       \<and> navLinks st' = navLinks st \<and> effects st' = effects st
       \<and> activeLinks st' = (case lastEntering (doc st) (navLinks st) es of
                  None \<Rightarrow> activeLinks st | Some a \<Rightarrow> [a])
       \<and> (lastEntering (doc st) (navLinks st) es = None \<longrightarrow> st' = st)" ..
    with False show ?thesis
      by (simp add: lastEntering_Cons split: option.splits)
  next
    case True
    then have safe: "cssStringSafe (toString (getAttribute (doc st) (target e) ''id''))"
      using Cons.prems(2) by (simp add: plainIds_def sectionId_def)
    define st1 where
      "st1 = (case linkFor (doc st) (navLinks st) (sectionId (doc st) e) of
                None \<Rightarrow> st | Some a \<Rightarrow> markOnly a st)"
    have set1: "setActiveLink eng (getAttribute (doc st) (target e) ''id'') st = Inr st1"
      using setActiveLink_plain[OF Cons.prems(1) safe] by (simp add: st1_def sectionId_def)
    have same1: "sameButActive (doc st) (doc st1)"
      by (simp add: st1_def sameButActive_markOnly split: option.splits)
    have links1: "navLinks st1 = navLinks st"
      by (simp add: st1_def split: option.splits)
    have eff1: "effects st1 = effects st"
      by (simp add: st1_def split: option.splits)
    have sync1: "navLinks st1 = selectAll (doc st1) [ClassSel ''nav-link'']"
      using Cons.prems(1) links1 sameButActive_selectAll[OF same1] by simp
    have plain1: "plainIds (doc st1) es"
      using plain_es sameButActive_plainIds[OF same1] by simp
    have act1: "activeLinks st1 =
                 (case linkFor (doc st) (navLinks st) (sectionId (doc st) e) of
                    None \<Rightarrow> activeLinks st | Some a \<Rightarrow> [a])"
      using Cons.prems(1)
      by (auto simp: st1_def activeLinks_markOnly linkFor_member split: option.splits)
    from Cons.IH[OF sync1 plain1] obtain st' where all':
      "observerCallback eng es st1 = Inr st' \<and> sameButActive (doc st1) (doc st')
       \<and> navLinks st' = navLinks st1 \<and> effects st' = effects st1
       \<and> activeLinks st' = (case lastEntering (doc st1) (navLinks st1) es of
                  None \<Rightarrow> activeLinks st1 | Some a \<Rightarrow> [a])
       \<and> (lastEntering (doc st1) (navLinks st1) es = None \<longrightarrow> st' = st1)" ..
    then have st':
      "observerCallback eng es st1 = Inr st'" "sameButActive (doc st1) (doc st')"
      "navLinks st' = navLinks st1" "effects st' = effects st1"
      "activeLinks st' = (case lastEntering (doc st1) (navLinks st1) es of
                  None \<Rightarrow> activeLinks st1 | Some a \<Rightarrow> [a])"
      "lastEntering (doc st1) (navLinks st1) es = None \<longrightarrow> st' = st1"
      by simp_all
    have last1: "lastEntering (doc st1) (navLinks st1) es = lastEntering (doc st) (navLinks st) es"
      using sameButActive_lastEntering[OF same1] links1 by simp
    have call: "observerCallback eng (e # es) st = Inr st'"
      using True set1 st'(1) by simp
    have same': "sameButActive (doc st) (doc st')"
      using same1 st'(2) by (rule sameButActive_trans)
    have act': "activeLinks st' =
               (case lastEntering (doc st) (navLinks st) (e # es) of
                  None \<Rightarrow> activeLinks st | Some a \<Rightarrow> [a])"
      using st'(5) last1 act1 True
      by (simp add: lastEntering_Cons split: option.splits)
    have unchanged: "lastEntering (doc st) (navLinks st) (e # es) = None \<longrightarrow> st' = st"
      using st'(6) last1 True
      by (auto simp: lastEntering_Cons st1_def split: option.splits)
    show ?thesis
      using call same' st'(3) links1 st'(4) eff1 act' unchanged by simp
  qed
qed

section \<open>The run of the script and what it preserves\<close>

lemma querySelectorAll_section:
  "querySelectorAll eng d ''section'' = Inr (selectAll d [TagSel ''section''])"
  by (simp add: querySelectorAll_def matchSelectors_def parse_section)

lemma querySelectorAll_navLink:
  "querySelectorAll eng d ''.nav-link'' = Inr (selectAll d [ClassSel ''nav-link''])"
  by (simp add: querySelectorAll_def matchSelectors_def parse_navLink)

lemma querySelector_logo:
  "querySelector eng d ''.logo'' =
     Inr (case selectAll d [ClassSel ''logo''] of [] \<Rightarrow> None | i # _ \<Rightarrow> Some i)"
  by (simp add: querySelector_def matchSelectors_def parse_logo split: list.splits)

lemma querySelector_home:
  "querySelector eng d ''#home'' =
     Inr (case selectAll d [IdSel ''home''] of [] \<Rightarrow> None | i # _ \<Rightarrow> Some i)"
  by (simp add: querySelector_def matchSelectors_def parse_home split: list.splits)

lemma stateAfter_simps [simp]:
  "stateAfter (Inr st) = st" "stateAfter (Inl (err, st)) = st"
  by (simp_all add: stateAfter_def)

lemma init_state:
  "stateAfter (init eng d) =
     \<lparr>doc = (case selectAll d [ClassSel ''nav-link''] of
               [] \<Rightarrow> d | first # _ \<Rightarrow> classListAdd d first ''active''),
      sections = selectAll d [TagSel ''section''],
      navLinks = selectAll d [ClassSel ''nav-link''],
      clickListeners =
        map (\<lambda>link. (link, NavLinkClick link)) (selectAll d [ClassSel ''nav-link''])
        @ (case selectAll (case selectAll d [ClassSel ''nav-link''] of
               [] \<Rightarrow> d | first # _ \<Rightarrow> classListAdd d first ''active'') [ClassSel ''logo''] of
             [] \<Rightarrow> [] | logo # _ \<Rightarrow> [(logo, LogoClick)]),
      observed = selectAll d [TagSel ''section''],
      effects = []\<rparr>"
  by (simp add: init_def querySelectorAll_section querySelectorAll_navLink querySelector_logo
      Let_def split: list.splits)

lemma init_navLinks [simp]:
  "navLinks (stateAfter (init eng d)) = selectAll d [ClassSel ''nav-link'']"
  by (simp add: init_state)

lemma init_doc:
  "doc (stateAfter (init eng d)) =
     (case selectAll d [ClassSel ''nav-link''] of
        [] \<Rightarrow> d | first # _ \<Rightarrow> classListAdd d first ''active'')"
  by (simp add: init_state)

lemma init_same: "sameButActive d (doc (stateAfter (init eng d)))"
  by (simp add: init_doc sameButActive_classListAdd split: list.splits)

lemma setActiveLink_same:
  "sameButActive (doc st) (doc (stateAfter (setActiveLink eng sid st)))
   \<and> navLinks (stateAfter (setActiveLink eng sid st)) = navLinks st"
proof -
  have "sameButActive (doc st) (doc (markOnly a st))" for a
    by (rule sameButActive_markOnly)
  then show ?thesis
    by (simp add: setActiveLink_def markOnly_def Let_def removeAllActiveClasses_def
        split: sum.splits option.splits)
qed

lemma observerCallback_same:
  "sameButActive (doc st) (doc (stateAfter (observerCallback eng entries st)))
   \<and> navLinks (stateAfter (observerCallback eng entries st)) = navLinks st"
proof (induction entries arbitrary: st)
  case Nil
  then show ?case by simp
next
  case (Cons e es)
  show ?case
  proof (cases "isIntersecting e")
    case False
    then show ?thesis using Cons.IH[of st] by simp
  next
    case True
    let ?r = "setActiveLink eng (getAttribute (doc st) (target e) ''id'') st"
    show ?thesis
    proof (cases ?r)
      case (Inl x)
      then show ?thesis
        using True setActiveLink_same[of st eng "getAttribute (doc st) (target e) ''id''"]
        by (cases x) simp
    next
      case (Inr st1)
      then have "sameButActive (doc st) (doc st1)" "navLinks st1 = navLinks st"
        using setActiveLink_same[of st eng "getAttribute (doc st) (target e) ''id''"]
        by simp_all
      then show ?thesis
        using True Inr Cons.IH[of st1] by (auto intro: sameButActive_trans)
    qed
  qed
qed

lemma navLinkClick_keeps:
  "doc (stateAfter (navLinkClick eng link st)) = doc st
   \<and> navLinks (stateAfter (navLinkClick eng link st)) = navLinks st"
  by (simp add: navLinkClick_def emit_def Let_def split: sum.splits option.splits)

lemma logoClick_keeps:
  "doc (stateAfter (logoClick eng st)) = doc st
   \<and> navLinks (stateAfter (logoClick eng st)) = navLinks st"
  by (simp add: logoClick_def emit_def Let_def split: sum.splits option.splits)

lemma perform_same:
  "sameButActive (doc st) (doc (stateAfter (perform eng op st)))
   \<and> navLinks (stateAfter (perform eng op st)) = navLinks st"
proof (cases op)
  case (Click l)
  then show ?thesis
    by (cases l) (simp_all add: navLinkClick_keeps logoClick_keeps)
next
  case (Notify entries)
  then show ?thesis by (simp add: observerCallback_same)
qed

lemma run_same:
  "sameButActive (doc st) (doc (run eng ops st)) \<and> navLinks (run eng ops st) = navLinks st"
proof (induction ops arbitrary: st)
  case Nil
  then show ?case by simp
next
  case (Cons op ops)
  show ?case
    using perform_same[of st eng op] Cons.IH[of "stateAfter (perform eng op st)"]
    by (auto intro: sameButActive_trans)
qed

lemma pageAfter_same:
  "sameButActive d (doc (pageAfter eng d ops))
   \<and> navLinks (pageAfter eng d ops) = selectAll d [ClassSel ''nav-link'']"
  using run_same[of "stateAfter (init eng d)" eng ops] init_same[of d eng]
  by (auto simp: pageAfter_def intro: sameButActive_trans)

lemma pageAfter_links:
  "navLinks (pageAfter eng d ops) = selectAll (doc (pageAfter eng d ops)) [ClassSel ''nav-link'']"
  using pageAfter_same[of d eng ops]
    sameButActive_selectAll[of d "doc (pageAfter eng d ops)"]
  by simp

section \<open>Counting the active links\<close>

lemma activeLinks_cong:
  assumes "doc st' = doc st" and "navLinks st' = navLinks st"
  shows "activeLinks st' = activeLinks st"
proof -
  have "isActive st' = isActive st"
    by (rule ext) (simp add: isActive_def assms(1))
  then show ?thesis by (simp add: activeLinks_def assms(2))
qed

lemma lastEntering_member:
  "lastEntering d links entries = Some a \<Longrightarrow> a \<in> set links"
  by (auto simp: lastEntering_def split: list.splits dest: linkFor_member)

lemma init_activeLinks:
  assumes "markupUnmarked d"
  shows "activeLinks (stateAfter (init eng d)) =
           (case selectAll d [ClassSel ''nav-link''] of [] \<Rightarrow> [] | first # _ \<Rightarrow> [first])"
proof (cases "selectAll d [ClassSel ''nav-link'']")
  case Nil
  then show ?thesis by (simp add: activeLinks_def)
next
  case (Cons first rest)
  have dist: "distinct (first # rest)"
    using selectAll_distinct[of d "[ClassSel ''nav-link'']"] Cons by simp
  have bound: "first < length d"
    using selectAll_bound[of first d "[ClassSel ''nav-link'']"] Cons by simp
  have clean: "\<forall>l \<in> set rest. ''active'' \<notin> set (classes (d ! l))"
    using assms Cons by (simp add: markupUnmarked_def list_all_iff)
  let ?st = "stateAfter (init eng d)"
  have d': "doc ?st = classListAdd d first ''active''"
    using Cons by (simp add: init_doc)
  have "isActive ?st first"
    using bound by (simp add: isActive_def d' classListAdd_nth)
  moreover have "\<not> isActive ?st l" if "l \<in> set rest" for l
  proof -
    have "l \<noteq> first" using dist that by auto
    then show ?thesis
      using clean that by (simp add: isActive_def d' classListAdd_nth)
  qed
  ultimately have "filter (isActive ?st) (first # rest) = [first]"
    by (simp add: filter_empty_conv)
  then show ?thesis
    using Cons by (simp add: activeLinks_def)
qed

lemma perform_oneActive:
  assumes sync: "navLinks st = selectAll (doc st) [ClassSel ''nav-link'']"
    and plain: "plainOperation (doc st) op"
    and one: "oneActive st"
  shows "oneActive (stateAfter (perform eng op st))"
proof (cases op)
  case (Click l)
  have keeps: "doc (stateAfter (perform eng op st)) = doc st
        \<and> navLinks (stateAfter (perform eng op st)) = navLinks st"
    using Click by (cases l) (simp_all add: navLinkClick_keeps logoClick_keeps)
  then have "activeLinks (stateAfter (perform eng op st)) = activeLinks st"
    by (intro activeLinks_cong) simp_all
  with one keeps show ?thesis by (simp add: oneActive_def)
next
  case (Notify entries)
  then have "plainIds (doc st) entries" using plain by simp
  from observerCallback_plain[OF sync this, of eng] obtain st' where st':
    "observerCallback eng entries st = Inr st' \<and> sameButActive (doc st) (doc st')
     \<and> navLinks st' = navLinks st \<and> effects st' = effects st
     \<and> activeLinks st' = (case lastEntering (doc st) (navLinks st) entries of
                  None \<Rightarrow> activeLinks st | Some a \<Rightarrow> [a])
     \<and> (lastEntering (doc st) (navLinks st) entries = None \<longrightarrow> st' = st)" ..
  show ?thesis
  proof (cases "lastEntering (doc st) (navLinks st) entries")
    case None
    with st' one Notify show ?thesis by simp
  next
    case (Some a)
    then have "navLinks st \<noteq> []"
      using lastEntering_member[of "doc st" "navLinks st" entries a] by auto
    with st' Some Notify show ?thesis by (simp add: oneActive_def)
  qed
qed

lemma sameButActive_plainOperation:
  "sameButActive d d' \<Longrightarrow> plainOperation d' op = plainOperation d op"
  by (cases op) (simp_all add: sameButActive_plainIds)

lemma run_oneActive:
  assumes "sameButActive d (doc st)"
    and "navLinks st = selectAll (doc st) [ClassSel ''nav-link'']"
    and "list_all (plainOperation d) ops"
    and "oneActive st"
  shows "oneActive (run eng ops st)"
  using assms
proof (induction ops arbitrary: st)
  case Nil
  then show ?case by simp
next
  case (Cons op ops)
  let ?st1 = "stateAfter (perform eng op st)"
  have same1: "sameButActive (doc st) (doc ?st1)" and links1: "navLinks ?st1 = navLinks st"
    using perform_same[of st eng op] by simp_all
  have sameD: "sameButActive d (doc ?st1)"
    using Cons.prems(1) same1 by (rule sameButActive_trans)
  have sync1: "navLinks ?st1 = selectAll (doc ?st1) [ClassSel ''nav-link'']"
    using Cons.prems(2) links1 sameButActive_selectAll[OF same1] by simp
  have "plainOperation (doc st) op"
    using Cons.prems(1,3) by (simp add: sameButActive_plainOperation)
  then have one1: "oneActive ?st1"
    using Cons.prems(2,4) by (simp add: perform_oneActive)
  have "list_all (plainOperation d) ops" using Cons.prems(3) by simp
  from Cons.IH[OF sameD sync1 this one1] show ?case by simp
qed

lemma pageAfter_oneActive:
  assumes "markupUnmarked d" and "list_all (plainOperation d) ops"
  shows "oneActive (pageAfter eng d ops)"
proof -
  let ?st = "stateAfter (init eng d)"
  have "oneActive ?st"
    using init_activeLinks[OF assms(1), of eng]
    by (simp add: oneActive_def split: list.splits)
  moreover have "navLinks ?st = selectAll (doc ?st) [ClassSel ''nav-link'']"
    using sameButActive_selectAll[OF init_same[of d eng]] by simp
  ultimately show ?thesis
    using assms(2) init_same[of d eng] by (simp add: pageAfter_def run_oneActive)
qed

section \<open>The example pages, loaded\<close>

lemmas examplePages = examplePage_def pageWithoutLogo_def pageWithoutHome_def
  pageWithStrays_def pageWithoutLinks_def pageMarked_def pageWithBareLogo_def
  pageWithQuotedId_def pageWithNullTarget_def pageWithOddLinks_def pageWithLogoLink_def

lemmas selecting = selectAll_def matches_def getAttribute_def

lemma emit_fields [simp]:
  "doc (emit x st) = doc st" "navLinks (emit x st) = navLinks st"
  "effects (emit x st) = effects st @ [x]"
  by (simp_all add: emit_def)

lemma example_loaded:
  "pageAfter rejecting examplePage [] =
     \<lparr>doc = classListAdd examplePage 1 ''active'', sections = [4, 5, 6], navLinks = [1, 2, 3],
      clickListeners =
        [(1, NavLinkClick 1), (2, NavLinkClick 2), (3, NavLinkClick 3), (0, LogoClick)],
      observed = [4, 5, 6], effects = []\<rparr>"
  by (simp add: pageAfter_def init_state examplePages selecting classListAdd_def addToken_def)

lemma strays_loaded:
  "pageAfter rejecting pageWithStrays [] =
     \<lparr>doc = pageWithStrays, sections = [3, 4], navLinks = [1, 2],
      clickListeners = [(1, NavLinkClick 1), (2, NavLinkClick 2), (0, LogoClick)],
      observed = [3, 4], effects = []\<rparr>"
  by (simp add: pageAfter_def init_state examplePages selecting classListAdd_def addToken_def)

lemma links_loaded:
  "pageAfter rejecting pageWithoutLinks [] =
     \<lparr>doc = pageWithoutLinks, sections = [1], navLinks = [],
      clickListeners = [(0, LogoClick)], observed = [1], effects = []\<rparr>"
  by (simp add: pageAfter_def init_state examplePages selecting)

lemma observer_margins:
  "parseRootMargin (rootMargin observerOptions)
   = Some \<lparr>marginTop = Percent (- 70), marginRight = Px 0,
           marginBottom = Percent (- 70), marginLeft = Px 0\<rparr>"
  by (simp add: observerOptions_def parseRootMargin_def parseLength_def isDigit_def Let_def)

section \<open>Identifiers, listeners and clicks\<close>














lemma filter_only_le: "distinct xs \<Longrightarrow> length (filter (\<lambda>x. x = a) xs) \<le> 1"
  by (induction xs) (auto simp: filter_empty_conv)

lemma isActive_markOnly_any:
  assumes "j \<in> set (navLinks st)" and "j < length (doc st)"
  shows "isActive (markOnly a st) j = (j = a)"
  using assms by (auto simp: isActive_def markOnly_nth)

lemma activeLinks_markOnly_le:
  assumes "navLinks st = selectAll (doc st) [ClassSel ''nav-link'']"
  shows "length (activeLinks (markOnly a st)) \<le> 1"
proof -
  have "filter (isActive (markOnly a st)) (navLinks st) = filter (\<lambda>x. x = a) (navLinks st)"
  proof (rule filter_cong)
    fix j assume "j \<in> set (navLinks st)"
    moreover from this have "j < length (doc st)"
      using assms by (simp add: selectAll_bound)
    ultimately show "isActive (markOnly a st) j = (j = a)"
      by (rule isActive_markOnly_any)
  qed simp
  moreover have "distinct (navLinks st)"
    using assms by (simp add: selectAll_distinct)
  ultimately show ?thesis
    using filter_only_le[of "navLinks st" a] by (simp add: activeLinks_def)
qed

lemma setActiveLink_cases:
  "stateAfter (setActiveLink eng sid st) = st
   \<or> (\<exists>a. stateAfter (setActiveLink eng sid st) = markOnly a st)"
  by (auto simp: setActiveLink_def markOnly_def Let_def split: sum.splits option.splits)

lemma setActiveLink_atMostOne:
  assumes "navLinks st = selectAll (doc st) [ClassSel ''nav-link'']"
    and "length (activeLinks st) \<le> 1"
  shows "length (activeLinks (stateAfter (setActiveLink eng sid st))) \<le> 1"
  using setActiveLink_cases[of eng sid st] assms activeLinks_markOnly_le[OF assms(1)]
  by auto

lemma observerCallback_atMostOne:
  assumes "navLinks st = selectAll (doc st) [ClassSel ''nav-link'']"
    and "length (activeLinks st) \<le> 1"
  shows "length (activeLinks (stateAfter (observerCallback eng entries st))) \<le> 1"
  using assms
proof (induction entries arbitrary: st)
  case Nil
  then show ?case by simp
next
  case (Cons e es)
  show ?case
  proof (cases "isIntersecting e")
    case False
    then show ?thesis using Cons.IH[OF Cons.prems] by simp
  next
    case True
    let ?sid = "getAttribute (doc st) (target e) ''id''"
    let ?r = "setActiveLink eng ?sid st"
    have le: "length (activeLinks (stateAfter ?r)) \<le> 1"
      using Cons.prems by (rule setActiveLink_atMostOne)
    show ?thesis
    proof (cases ?r)
      case (Inl x)
      then show ?thesis using True le by (cases x) simp
    next
      case (Inr st1)
      have same: "sameButActive (doc st) (doc st1)" and links: "navLinks st1 = navLinks st"
        using setActiveLink_same[of st eng ?sid] Inr by simp_all
      have sync1: "navLinks st1 = selectAll (doc st1) [ClassSel ''nav-link'']"
        using Cons.prems(1) links sameButActive_selectAll[OF same] by simp
      have "length (activeLinks st1) \<le> 1" using le Inr by simp
      from Cons.IH[OF sync1 this] show ?thesis using True Inr by simp
    qed
  qed
qed

lemma perform_atMostOne:
  assumes "navLinks st = selectAll (doc st) [ClassSel ''nav-link'']"
    and "length (activeLinks st) \<le> 1"
  shows "length (activeLinks (stateAfter (perform eng op st))) \<le> 1"
proof (cases op)
  case (Click l)
  have keeps: "doc (stateAfter (perform eng op st)) = doc st
        \<and> navLinks (stateAfter (perform eng op st)) = navLinks st"
    using Click by (cases l) (simp_all add: navLinkClick_keeps logoClick_keeps)
  then have "activeLinks (stateAfter (perform eng op st)) = activeLinks st"
    by (intro activeLinks_cong) simp_all
  with assms(2) show ?thesis by simp
next
  case (Notify entries)
  then show ?thesis using observerCallback_atMostOne[OF assms] by simp
qed

lemma run_atMostOne:
  assumes "navLinks st = selectAll (doc st) [ClassSel ''nav-link'']"
    and "length (activeLinks st) \<le> 1"
  shows "length (activeLinks (run eng ops st)) \<le> 1"
  using assms
proof (induction ops arbitrary: st)
  case Nil
  then show ?case by simp
next
  case (Cons op ops)
  let ?st1 = "stateAfter (perform eng op st)"
  have same1: "sameButActive (doc st) (doc ?st1)" and links1: "navLinks ?st1 = navLinks st"
    using perform_same[of st eng op] by simp_all
  have sync1: "navLinks ?st1 = selectAll (doc ?st1) [ClassSel ''nav-link'']"
    using Cons.prems(1) links1 sameButActive_selectAll[OF same1] by simp
  have "length (activeLinks ?st1) \<le> 1"
    using Cons.prems by (rule perform_atMostOne)
  from Cons.IH[OF sync1 this] show ?case by simp
qed

lemma pageAfter_atMostOne:
  assumes "markupUnmarked d"
  shows "length (activeLinks (pageAfter eng d ops)) \<le> 1"
proof -
  let ?st = "stateAfter (init eng d)"
  have le: "length (activeLinks ?st) \<le> 1"
    using init_activeLinks[OF assms, of eng] by (simp split: list.splits)
  have sync: "navLinks ?st = selectAll (doc ?st) [ClassSel ''nav-link'']"
    using sameButActive_selectAll[OF init_same[of d eng]] by simp
  show ?thesis
    unfolding pageAfter_def using sync le by (rule run_atMostOne)
qed



lemma quoted_loaded:
  "pageAfter rejecting pageWithQuotedId [] =
     \<lparr>doc = classListAdd pageWithQuotedId 1 ''active'', sections = [3, 4, 5],
      navLinks = [1, 2],
      clickListeners = [(1, NavLinkClick 1), (2, NavLinkClick 2), (0, LogoClick)],
      observed = [3, 4, 5], effects = []\<rparr>"
  by (simp add: pageAfter_def init_state examplePages selecting classListAdd_def addToken_def)

lemma null_loaded:
  "pageAfter rejecting pageWithNullTarget [] =
     \<lparr>doc = classListAdd pageWithNullTarget 1 ''active'', sections = [3, 4],
      navLinks = [1, 2],
      clickListeners = [(1, NavLinkClick 1), (2, NavLinkClick 2), (0, LogoClick)],
      observed = [3, 4], effects = []\<rparr>"
  by (simp add: pageAfter_def init_state examplePages selecting classListAdd_def addToken_def)


lemma quoted_selector_rejected:
  "parseSelector (activeLinkSelector [CHR ''a'', CHR 0x22, CHR ''b'']) = None"
  by (simp add: parseSelector_def activeLinkSelector_def delim_def charClasses)

lemma quoted_entry_throws:
  "observerCallback rejecting (\<lparr>target = 4, isIntersecting = True\<rparr> # es)
     (pageAfter rejecting pageWithQuotedId [])
   = Inl (SyntaxError, pageAfter rejecting pageWithQuotedId [])"
proof -
  let ?st = "pageAfter rejecting pageWithQuotedId []"
  have "getAttribute (doc ?st) 4 ''id'' = Some [CHR ''a'', CHR 0x22, CHR ''b'']"
    by (simp add: quoted_loaded) (simp add: examplePages selecting classListAdd_def)
  then have "setActiveLink rejecting (getAttribute (doc ?st) 4 ''id'') ?st
             = Inl (SyntaxError, ?st)"
    by (simp add: setActiveLink_def querySelector_def matchSelectors_def toString_def
        quoted_selector_rejected rejecting_def)
  then show ?thesis by simp
qed






section \<open>The claims\<close>

text \<open>
  C1. The claim is a band from 30% to 70% of the viewport's height, the central 40%, and
  a notification as soon as a section overlaps it. The threshold is 0 as claimed, but the
  margins of the code are 70% of the height at the top and 70% at the bottom, which
  leave no band at all: in a viewport 1000 units high the band is the empty rectangle at
  700, not the span from 300 to 700. The source's own comments ("middle 70% of
  viewport", "a zone in the middle of the screen") describe a middle zone that these
  margins do not give.
\<close>

theorem observer_band_is_empty:
  "threshold observerOptions = 0
   \<and> parseRootMargin (rootMargin observerOptions)
       = Some \<lparr>marginTop = Percent (- 70), marginRight = Px 0,
               marginBottom = Percent (- 70), marginLeft = Px 0\<rparr>
   \<and> viewportBand observerOptions 1000 = Some (700, 700)
   \<and> viewportBand observerOptions 1000 \<noteq> Some (300, 700)"
proof -
  have "viewportBand observerOptions 1000 = Some (700, 700)"
    by (simp add: viewportBand_def observer_margins Let_def)
  moreover have "threshold observerOptions = 0"
    by (simp add: observerOptions_def)
  ultimately show ?thesis
    using observer_margins by simp
qed

text \<open>
  C2. The claim is that no operation throws on any page. The script does throw: on a
  page without an element of class \<^verbatim>\<open>logo\<close> its last statement calls
  \<^verbatim>\<open>addEventListener\<close> on \<^verbatim>\<open>null\<close>, and on a page without an element of identifier
  \<^verbatim>\<open>home\<close> a click on the logo calls \<^verbatim>\<open>scrollIntoView\<close> on \<^verbatim>\<open>null\<close>. Both are
  a TypeError, whatever the host's selector engine.
\<close>

theorem missing_logo_or_home_throws:
  "thrown (init eng pageWithoutLogo) = Some TypeError
   \<and> thrown (logoClick eng (pageAfter eng pageWithoutHome [])) = Some TypeError"
proof -
  have "selectAll (doc (stateAfter (init eng pageWithoutHome))) [IdSel ''home''] = []"
    by (simp add: init_doc examplePages selecting classListAdd_def)
  then have "thrown (logoClick eng (pageAfter eng pageWithoutHome [])) = Some TypeError"
    by (simp add: pageAfter_def logoClick_def querySelector_home emit_def thrown_def Let_def)
  moreover have "thrown (init eng pageWithoutLogo) = Some TypeError"
    by (simp add: init_def querySelectorAll_section querySelectorAll_navLink querySelector_logo
        Let_def thrown_def examplePages selecting classListAdd_def)
  ultimately show ?thesis by simp
qed

text \<open>
  C3, as the code has it. If no navigation link but possibly the first carries the
  active marker in the markup, then after the script has run and after any sequence of
  clicks and visibility notifications at most one navigation link is active. The number
  is exactly one when the page has navigation links, and zero when it has none, as long
  as the section identifiers of the notifications are free of quotes, backslashes, line
  breaks and NUL; so it is one, not zero, from the initial seeding on.
\<close>

theorem one_active_link_after_load:
  assumes "markupUnmarked d"
  shows "length (activeLinks (pageAfter eng d ops)) \<le> 1
         \<and> (list_all (plainOperation d) ops \<longrightarrow>
              length (activeLinks (pageAfter eng d ops))
              = (if selectAll d [ClassSel ''nav-link''] = [] then 0 else 1))"
proof -
  have "length (activeLinks (pageAfter eng d ops))
        = (if selectAll d [ClassSel ''nav-link''] = [] then 0 else 1)"
    if "list_all (plainOperation d) ops"
    using pageAfter_oneActive[OF assms that, of eng] pageAfter_same[of d eng ops]
    by (simp add: oneActive_def)
  then show ?thesis
    using pageAfter_atMostOne[OF assms, of eng ops] by blast
qed

theorem one_active_link_after_load_witness:
  "markupUnmarked examplePage
   \<and> list_all (plainOperation examplePage)
        [Notify [\<lparr>target = 6, isIntersecting = True\<rparr>], Click (NavLinkClick 2),
         Notify [\<lparr>target = 6, isIntersecting = False\<rparr>], Click LogoClick]
   \<and> selectAll examplePage [ClassSel ''nav-link''] = [1, 2, 3]
   \<and> length (activeLinks (pageAfter rejecting examplePage
        [Notify [\<lparr>target = 6, isIntersecting = True\<rparr>], Click (NavLinkClick 2),
         Notify [\<lparr>target = 6, isIntersecting = False\<rparr>], Click LogoClick])) \<le> 1
   \<and> length (activeLinks (pageAfter rejecting examplePage
        [Notify [\<lparr>target = 6, isIntersecting = True\<rparr>], Click (NavLinkClick 2),
         Notify [\<lparr>target = 6, isIntersecting = False\<rparr>], Click LogoClick])) = 1"
proof -
  let ?ops = "[Notify [\<lparr>target = 6, isIntersecting = True\<rparr>], Click (NavLinkClick 2),
         Notify [\<lparr>target = 6, isIntersecting = False\<rparr>], Click LogoClick]"
  have links: "selectAll examplePage [ClassSel ''nav-link''] = [1, 2, 3]"
    by (simp add: examplePages selecting)
  have clean: "markupUnmarked examplePage"
    by (simp add: markupUnmarked_def links) (simp add: examplePages)
  have "sectionId examplePage \<lparr>target = 6, isIntersecting = True\<rparr> = ''projects''"
    by (simp add: sectionId_def toString_def examplePages selecting)
  then have plain: "list_all (plainOperation examplePage) ?ops"
    by (simp add: plainIds_def cssStringSafe_def isStringSafe_def)
  show ?thesis
    using links clean plain one_active_link_after_load[OF clean, of rejecting ?ops]
    by simp
qed

text \<open>
  Before any visibility notification has been processed, the example page has one active
  navigation link (the first), not none; and a page whose markup marks two links active
  has two.
\<close>

theorem one_active_before_first_observation_counterexample:
  "activeLinks (pageAfter rejecting examplePage []) = [1]
   \<and> length (activeLinks (pageAfter rejecting examplePage [])) \<noteq> 0
   \<and> activeLinks (pageAfter rejecting pageWithStrays []) = [1, 2]"
proof -
  have "activeLinks (pageAfter rejecting examplePage []) = [1]"
    by (simp add: example_loaded activeLinks_def isActive_def)
       (simp add: examplePages classListAdd_def addToken_def)
  moreover have "activeLinks (pageAfter rejecting pageWithStrays []) = [1, 2]"
    by (simp add: strays_loaded activeLinks_def isActive_def) (simp add: examplePages)
  ultimately show ?thesis by simp
qed







text \<open>
  C6, as the code has it. In any state the page can reach, a notification that a section
  is inside the band leaves the whole state as it was, every active marker included, and
  throws nothing, when the section's identifier is free of quotes, backslashes, line
  breaks and NUL and no navigation link has it as its \<^verbatim>\<open>data-target\<close>. The identifier
  of a section without an \<^verbatim>\<open>id\<close> attribute is the word \<^verbatim>\<open>null\<close> here, as
  \<open>sectionId\<close> has it.
\<close>

theorem unmatched_section_changes_nothing:
  assumes "st = pageAfter eng d ops"
    and "isIntersecting e"
    and "cssStringSafe (sectionId (doc st) e)"
    and "\<forall>l \<in> set (navLinks st).
           getAttribute (doc st) l ''data-target'' \<noteq> Some (sectionId (doc st) e)"
  shows "observerCallback eng [e] st = Inr st"
proof -
  have sync: "navLinks st = selectAll (doc st) [ClassSel ''nav-link'']"
    using assms(1) pageAfter_links[of eng d ops] by simp
  have "linkFor (doc st) (navLinks st) (sectionId (doc st) e) = None"
    using assms(4) by (simp add: linkFor_def find_None_iff)
  then have "setActiveLink eng (getAttribute (doc st) (target e) ''id'') st = Inr st"
    using setActiveLink_plain[OF sync, of "getAttribute (doc st) (target e) ''id''" eng] assms(3)
    by (simp add: sectionId_def)
  then show ?thesis
    using assms(2) by simp
qed

theorem unmatched_section_changes_nothing_witness:
  "isIntersecting \<lparr>target = 4, isIntersecting = True\<rparr>
   \<and> sectionId (doc (pageAfter rejecting pageWithStrays [])) \<lparr>target = 4, isIntersecting = True\<rparr>
       = ''gallery''
   \<and> cssStringSafe ''gallery''
   \<and> list_all (\<lambda>l. getAttribute (doc (pageAfter rejecting pageWithStrays [])) l ''data-target''
                    \<noteq> Some ''gallery'') (navLinks (pageAfter rejecting pageWithStrays []))
   \<and> activeLinks (pageAfter rejecting pageWithStrays []) = [1, 2]
   \<and> observerCallback rejecting [\<lparr>target = 4, isIntersecting = True\<rparr>]
        (pageAfter rejecting pageWithStrays [])
       = Inr (pageAfter rejecting pageWithStrays [])"
proof -
  let ?st = "pageAfter rejecting pageWithStrays []"
  let ?e = "\<lparr>target = 4, isIntersecting = True\<rparr>"
  have sid: "sectionId (doc ?st) ?e = ''gallery''"
    by (simp add: strays_loaded sectionId_def toString_def) (simp add: examplePages selecting)
  have safe: "cssStringSafe ''gallery''"
    by (simp add: cssStringSafe_def isStringSafe_def)
  have unmatched: "list_all (\<lambda>l. getAttribute (doc ?st) l ''data-target'' \<noteq> Some ''gallery'')
                     (navLinks ?st)"
    by (simp add: strays_loaded) (simp add: examplePages selecting)
  have act: "activeLinks ?st = [1, 2]"
    by (simp add: strays_loaded activeLinks_def isActive_def) (simp add: examplePages)
  show ?thesis
    using sid safe unmatched act
      unmatched_section_changes_nothing[of ?st rejecting pageWithStrays "[]" ?e]
    by (simp add: list_all_iff)
qed

text \<open>
  A section with the identifier \<^verbatim>\<open>a"b\<close>, which is no link's \<^verbatim>\<open>data-target\<close>, makes
  the callback throw a SyntaxError (the engine \<open>rejecting\<close> stands for the host
  here). And a section without an \<^verbatim>\<open>id\<close> attribute, which has no identifier to
  match, moves the marker from the first link to the link whose \<^verbatim>\<open>data-target\<close> is
  the word \<^verbatim>\<open>null\<close>.
\<close>

theorem unmatched_section_quoted_or_without_id_counterexample:
  "list_all (\<lambda>l. getAttribute (doc (pageAfter rejecting pageWithQuotedId [])) l ''data-target''
                  \<noteq> getAttribute (doc (pageAfter rejecting pageWithQuotedId [])) 4 ''id'')
     (navLinks (pageAfter rejecting pageWithQuotedId []))
   \<and> thrown (observerCallback rejecting [\<lparr>target = 4, isIntersecting = True\<rparr>]
        (pageAfter rejecting pageWithQuotedId [])) = Some SyntaxError
   \<and> getAttribute (doc (pageAfter rejecting pageWithNullTarget [])) 4 ''id'' = None
   \<and> activeLinks (pageAfter rejecting pageWithNullTarget []) = [1]
   \<and> activeLinks (stateAfter (observerCallback rejecting [\<lparr>target = 4, isIntersecting = True\<rparr>]
        (pageAfter rejecting pageWithNullTarget []))) = [2]"
proof -
  let ?q = "pageAfter rejecting pageWithQuotedId []"
  let ?n = "pageAfter rejecting pageWithNullTarget []"
  have unmatched: "list_all (\<lambda>l. getAttribute (doc ?q) l ''data-target''
                      \<noteq> getAttribute (doc ?q) 4 ''id'') (navLinks ?q)"
    by (simp add: quoted_loaded) (simp add: examplePages selecting classListAdd_def)
  have noId: "getAttribute (doc ?n) 4 ''id'' = None"
    by (simp add: null_loaded) (simp add: examplePages selecting classListAdd_def)
  have before: "activeLinks ?n = [1]"
    by (simp add: null_loaded activeLinks_def isActive_def)
       (simp add: examplePages classListAdd_def addToken_def)
  have sync: "navLinks ?n = selectAll (doc ?n) [ClassSel ''nav-link'']"
    by (rule pageAfter_links)
  have safe: "cssStringSafe (toString (getAttribute (doc ?n) 4 ''id''))"
    by (simp add: noId toString_def cssStringSafe_def isStringSafe_def)
  have link: "linkFor (doc ?n) (navLinks ?n) ''null'' = Some 2"
    by (simp add: null_loaded linkFor_def)
       (simp add: examplePages selecting classListAdd_def)
  have "setActiveLink rejecting (getAttribute (doc ?n) 4 ''id'') ?n = Inr (markOnly 2 ?n)"
    using setActiveLink_plain[OF sync safe, of rejecting] link
    by (simp add: noId toString_def)
  then have "stateAfter (observerCallback rejecting [\<lparr>target = 4, isIntersecting = True\<rparr>] ?n)
             = markOnly 2 ?n"
    by simp
  moreover have "activeLinks (markOnly 2 ?n) = [2]"
    using sync by (rule activeLinks_markOnly) (simp add: null_loaded)
  ultimately have after: "activeLinks (stateAfter (observerCallback rejecting
                            [\<lparr>target = 4, isIntersecting = True\<rparr>] ?n)) = [2]"
    by simp
  show ?thesis
    using unmatched noId before after
    by (simp add: quoted_entry_throws thrown_def del: observerCallback.simps)
qed



text \<open>
  C8. When the script has run, and before any click or visibility notification, the first
  navigation link of the collection is active, whatever the page looks like otherwise
  (the script does not read the scroll position). On the example page that link is the
  one for \<^verbatim>\<open>home\<close>.
\<close>

theorem first_link_active_on_load:
  assumes "selectAll d [ClassSel ''nav-link''] = first # rest"
  shows "navLinks (pageAfter eng d []) = first # rest \<and> isActive (pageAfter eng d []) first"
proof -
  have "first < length d"
    using selectAll_bound[of first d "[ClassSel ''nav-link'']"] assms by simp
  then show ?thesis
    using assms by (simp add: pageAfter_def init_doc isActive_def classListAdd_nth)
qed

theorem first_link_active_on_load_witness:
  "selectAll examplePage [ClassSel ''nav-link''] = [1, 2, 3]
   \<and> getAttribute examplePage 1 ''data-target'' = Some ''home''
   \<and> navLinks (pageAfter rejecting examplePage []) = [1, 2, 3]
   \<and> isActive (pageAfter rejecting examplePage []) 1"
proof -
  have links: "selectAll examplePage [ClassSel ''nav-link''] = [1, 2, 3]"
    by (simp add: examplePages selecting)
  have "getAttribute examplePage 1 ''data-target'' = Some ''home''"
    by (simp add: examplePages selecting)
  then show ?thesis
    using links first_link_active_on_load[OF links, of rejecting] by simp
qed

text \<open>
  C9. A batch of visibility entries none of which reports a section inside the band
  leaves the page exactly as it was: the active marker of every navigation link, and
  everything else, is unchanged. The tracker reacts to entering only.
\<close>

theorem leaving_entries_change_nothing:
  "\<forall>e \<in> set entries. \<not> isIntersecting e \<Longrightarrow> observerCallback eng entries st = Inr st"
  by (induction entries) simp_all

theorem leaving_entries_change_nothing_witness:
  "list_all (\<lambda>e. \<not> isIntersecting e)
     [\<lparr>target = 6, isIntersecting = False\<rparr>, \<lparr>target = 4, isIntersecting = False\<rparr>]
   \<and> observerCallback rejecting
        [\<lparr>target = 6, isIntersecting = False\<rparr>, \<lparr>target = 4, isIntersecting = False\<rparr>]
        (pageAfter rejecting examplePage [Notify [\<lparr>target = 6, isIntersecting = True\<rparr>]])
      = Inr (pageAfter rejecting examplePage [Notify [\<lparr>target = 6, isIntersecting = True\<rparr>]])"
  using leaving_entries_change_nothing
    [of "[\<lparr>target = 6, isIntersecting = False\<rparr>, \<lparr>target = 4, isIntersecting = False\<rparr>]"
        rejecting "pageAfter rejecting examplePage [Notify [\<lparr>target = 6, isIntersecting = True\<rparr>]]"]
  by simp

text \<open>
  C10, as the code has it. In any state the page can reach, processing the notification
  that a section is inside the band a second time changes nothing: the state after the
  second processing is the state after the first. Exactly one navigation link is active
  then, provided the section's identifier is the \<^verbatim>\<open>data-target\<close> of a navigation link,
  or exactly one link was active before. (The identifier is free of quotes, backslashes,
  line breaks and NUL.)
\<close>

theorem entering_twice_is_idempotent:
  assumes "st = pageAfter eng d ops"
    and "isIntersecting e"
    and "cssStringSafe (sectionId (doc st) e)"
  shows "\<exists>st1. observerCallback eng [e] st = Inr st1
           \<and> observerCallback eng [e] st1 = Inr st1
           \<and> (linkFor (doc st) (navLinks st) (sectionId (doc st) e) \<noteq> None
                \<or> length (activeLinks st) = 1
              \<longrightarrow> length (activeLinks st1) = 1)"
proof -
  let ?sid = "getAttribute (doc st) (target e) ''id''"
  have sync: "navLinks st = selectAll (doc st) [ClassSel ''nav-link'']"
    using assms(1) pageAfter_links[of eng d ops] by simp
  have safe: "cssStringSafe (toString ?sid)"
    using assms(3) by (simp add: sectionId_def)
  show ?thesis
  proof (cases "linkFor (doc st) (navLinks st) (toString ?sid)")
    case None
    then have "setActiveLink eng ?sid st = Inr st"
      using setActiveLink_plain[OF sync safe, of eng] by simp
    then have "observerCallback eng [e] st = Inr st"
      using assms(2) by simp
    then show ?thesis
      using None by (auto simp: sectionId_def)
  next
    case (Some a)
    let ?st1 = "markOnly a st"
    have mem: "a \<in> set (navLinks st)"
      using Some by (rule linkFor_member)
    have first: "setActiveLink eng ?sid st = Inr ?st1"
      using setActiveLink_plain[OF sync safe, of eng] Some by simp
    have same: "sameButActive (doc st) (doc ?st1)"
      by (rule sameButActive_markOnly)
    have sync1: "navLinks ?st1 = selectAll (doc ?st1) [ClassSel ''nav-link'']"
      using sync sameButActive_selectAll[OF same] by simp
    have sid1: "getAttribute (doc ?st1) (target e) ''id'' = ?sid"
      using same by (rule sameButActive_getAttribute)
    have link1: "linkFor (doc ?st1) (navLinks ?st1) (toString ?sid) = Some a"
      using Some sameButActive_linkFor[OF same, of "navLinks st" "toString ?sid"] by simp
    have "setActiveLink eng ?sid ?st1 = Inr (markOnly a ?st1)"
      using setActiveLink_plain[OF sync1 safe, of eng] link1 by simp
    then have second: "setActiveLink eng ?sid ?st1 = Inr ?st1"
      using mem by (simp add: markOnly_idem)
    have "observerCallback eng [e] st = Inr ?st1"
      using assms(2) first by simp
    moreover have "observerCallback eng [e] ?st1 = Inr ?st1"
      using assms(2) second sid1 by simp
    moreover have "length (activeLinks ?st1) = 1"
      using activeLinks_markOnly[OF sync mem] by simp
    ultimately show ?thesis by blast
  qed
qed

theorem entering_twice_is_idempotent_witness:
  "sectionId (doc (pageAfter rejecting examplePage [])) \<lparr>target = 6, isIntersecting = True\<rparr>
     = ''projects''
   \<and> cssStringSafe ''projects''
   \<and> linkFor (doc (pageAfter rejecting examplePage []))
        (navLinks (pageAfter rejecting examplePage [])) ''projects'' = Some 3
   \<and> observerCallback rejecting [\<lparr>target = 6, isIntersecting = True\<rparr>]
        (stateAfter (observerCallback rejecting [\<lparr>target = 6, isIntersecting = True\<rparr>]
           (pageAfter rejecting examplePage [])))
       = Inr (stateAfter (observerCallback rejecting [\<lparr>target = 6, isIntersecting = True\<rparr>]
           (pageAfter rejecting examplePage [])))
   \<and> length (activeLinks (stateAfter (observerCallback rejecting
        [\<lparr>target = 6, isIntersecting = True\<rparr>] (pageAfter rejecting examplePage [])))) = 1"
proof -
  let ?st = "pageAfter rejecting examplePage []"
  let ?e = "\<lparr>target = 6, isIntersecting = True\<rparr>"
  have sid: "sectionId (doc ?st) ?e = ''projects''"
    by (simp add: example_loaded sectionId_def toString_def)
       (simp add: examplePages selecting classListAdd_def)
  have safe: "cssStringSafe ''projects''"
    by (simp add: cssStringSafe_def isStringSafe_def)
  have link: "linkFor (doc ?st) (navLinks ?st) ''projects'' = Some 3"
    by (simp add: example_loaded linkFor_def)
       (simp add: examplePages selecting classListAdd_def)
  have "\<exists>st1. observerCallback rejecting [?e] ?st = Inr st1
           \<and> observerCallback rejecting [?e] st1 = Inr st1
           \<and> (linkFor (doc ?st) (navLinks ?st) (sectionId (doc ?st) ?e) \<noteq> None
                \<or> length (activeLinks ?st) = 1
              \<longrightarrow> length (activeLinks st1) = 1)"
    by (rule entering_twice_is_idempotent[of ?st rejecting examplePage "[]" ?e])
       (simp_all add: sid safe)
  then obtain st1 where st1: "observerCallback rejecting [?e] ?st = Inr st1"
    "observerCallback rejecting [?e] st1 = Inr st1" "length (activeLinks st1) = 1"
    using sid link by auto
  then have "stateAfter (observerCallback rejecting [?e] ?st) = st1"
    by simp
  with st1 sid safe link show ?thesis by simp
qed

text \<open>
  On a page with a section and no navigation link, the notification processed twice
  leaves no navigation link active, not one.
\<close>

theorem entering_twice_without_links_counterexample:
  "isIntersecting \<lparr>target = 1, isIntersecting = True\<rparr>
   \<and> length (activeLinks (stateAfter (observerCallback rejecting [\<lparr>target = 1, isIntersecting = True\<rparr>]
         (stateAfter (observerCallback rejecting [\<lparr>target = 1, isIntersecting = True\<rparr>]
            (pageAfter rejecting pageWithoutLinks [])))))) \<noteq> 1"
proof -
  let ?st = "pageAfter rejecting pageWithoutLinks []"
  have "cssStringSafe ''home''"
    by (simp add: cssStringSafe_def isStringSafe_def)
  then have "querySelector rejecting (doc ?st) (activeLinkSelector ''home'') = Inr None"
    by (simp add: querySelector_activeLink linkFor_def links_loaded)
       (simp add: examplePages selecting)
  moreover have "getAttribute (doc ?st) 1 ''id'' = Some ''home''"
    by (simp add: links_loaded) (simp add: examplePages selecting)
  ultimately have "observerCallback rejecting [\<lparr>target = 1, isIntersecting = True\<rparr>] ?st = Inr ?st"
    by (simp add: setActiveLink_def toString_def)
  moreover have "activeLinks ?st = []"
    by (simp add: links_loaded activeLinks_def)
  ultimately show ?thesis by simp
qed

end
